theory Spec2Isabelle
  imports Complex_Main
begin

section \<open>Python values used by the gateway\<close>

text \<open>
  The gateway is one Python module, \<^verbatim>\<open>main.py\<close>. Its floats are modelled by the
  reals: the arithmetic of the unit conversions is exact, and rounding, overflow to
  infinity and NaN are outside the model. Its integers are \<open>int\<close>. Its strings are
  \<open>string\<close>; the bytes read from the serial port are taken to be ASCII, on which
  \<^verbatim>\<open>decode('utf-8', errors='replace')\<close> is the identity.
\<close>

type_synonym pyfloat = real

datatype exn = SerialException | OSError | ValueError | TypeError | KeyError | RequestException

text \<open>
  \<^verbatim>\<open>serial.SerialException\<close> is a subclass of \<^verbatim>\<open>OSError\<close>, so the clause
  \<^verbatim>\<open>except (serial.SerialException, OSError)\<close> catches both, while
  \<^verbatim>\<open>except serial.SerialException\<close> catches the first only.
\<close>

definition is_OSError :: "exn \<Rightarrow> bool" where
  "is_OSError e = (e = SerialException \<or> e = OSError)"

subsection \<open>String methods\<close>

definition is_space :: "char \<Rightarrow> bool" where
  "is_space c = ((of_char c :: nat) \<in> set [9, 10, 11, 12, 13, 28, 29, 30, 31, 32])"

definition strip :: "string \<Rightarrow> string" where
  "strip s = rev (dropWhile is_space (rev (dropWhile is_space s)))"

text \<open>\<^verbatim>\<open>sub in s\<close> on strings: \<open>sub\<close> occurs in \<open>s\<close> as a contiguous piece.\<close>

fun str_contains :: "string \<Rightarrow> string \<Rightarrow> bool" where
  "str_contains sub [] = (sub = [])"
| "str_contains sub (c # cs) = (take (length sub) (c # cs) = sub \<or> str_contains sub cs)"

text \<open>\<^verbatim>\<open>s.split(sep)\<close> for a separator of one character; the result is never empty.\<close>

fun str_split :: "char \<Rightarrow> string \<Rightarrow> string list" where
  "str_split sep [] = [[]]"
| "str_split sep (c # cs) =
     (if c = sep then [] # str_split sep cs
      else (case str_split sep cs of p # ps \<Rightarrow> (c # p) # ps | [] \<Rightarrow> [[c]]))"

subsection \<open>Reading numbers: \<^verbatim>\<open>int(s)\<close> and \<^verbatim>\<open>float(s)\<close>\<close>

definition is_digit :: "char \<Rightarrow> bool" where
  "is_digit c = (48 \<le> (of_char c :: nat) \<and> (of_char c :: nat) \<le> 57)"

definition digit_val :: "char \<Rightarrow> nat" where
  "digit_val c = (of_char c :: nat) - 48"

definition nat_of_digits :: "string \<Rightarrow> nat" where
  "nat_of_digits ds = foldl (\<lambda>a c. a * 10 + digit_val c) 0 ds"

text \<open>
  A digit part is a digit followed by digits, each optionally preceded by one underscore.
  \<open>digits_tail\<close> continues a digit part after a digit; both return the digits read
  (underscores dropped) and the unread rest.
\<close>

fun digits_tail :: "string \<Rightarrow> string \<times> string" where
  "digits_tail [] = ([], [])"
| "digits_tail [c] = (if is_digit c then ([c], []) else ([], [c]))"
| "digits_tail (c # d # cs) =
     (if is_digit c then (case digits_tail (d # cs) of (ds, r) \<Rightarrow> (c # ds, r))
      else if c = CHR ''_'' \<and> is_digit d then digits_tail (d # cs)
      else ([], c # d # cs))"

definition digitpart :: "string \<Rightarrow> string \<times> string" where
  "digitpart s = (case s of [] \<Rightarrow> ([], []) | c # cs \<Rightarrow> if is_digit c then digits_tail s else ([], s))"

definition sign_split :: "string \<Rightarrow> bool \<times> string" where
  "sign_split t =
     (case t of [] \<Rightarrow> (False, [])
      | c # cs \<Rightarrow> if c = CHR ''-'' then (True, cs) else if c = CHR ''+'' then (False, cs) else (False, t))"

text \<open>\<^verbatim>\<open>int(s)\<close> in base ten; \<open>None\<close> is \<^verbatim>\<open>ValueError\<close>.\<close>

definition py_int :: "string \<Rightarrow> int option" where
  "py_int s =
     (case sign_split (strip s) of (neg, u) \<Rightarrow>
        (case digitpart u of (ds, r) \<Rightarrow>
           if ds = [] \<or> r \<noteq> [] then None
           else Some (if neg then - int (nat_of_digits ds) else int (nat_of_digits ds))))"

text \<open>The exponent of a float literal: nothing, or \<^verbatim>\<open>e\<close> or \<^verbatim>\<open>E\<close>, a sign and a digit part.\<close>

definition exponent :: "string \<Rightarrow> int option" where
  "exponent r =
     (case r of [] \<Rightarrow> Some 0
      | c # cs \<Rightarrow>
          if c = CHR ''e'' \<or> c = CHR ''E'' then
            (case sign_split cs of (neg, u) \<Rightarrow>
               (case digitpart u of (ds, r') \<Rightarrow>
                  if ds = [] \<or> r' \<noteq> [] then None
                  else Some (if neg then - int (nat_of_digits ds) else int (nat_of_digits ds))))
          else None)"

definition scale10 :: "real \<Rightarrow> int \<Rightarrow> real" where
  "scale10 m e = (if 0 \<le> e then m * 10 ^ nat e else m / 10 ^ nat (- e))"

text \<open>
  \<^verbatim>\<open>float(s)\<close> on a string; \<open>None\<close> is \<^verbatim>\<open>ValueError\<close>. The decimal literals are
  covered in full (sign, digit parts, point, exponent, surrounding white space). The
  spellings \<^verbatim>\<open>inf\<close>, \<^verbatim>\<open>infinity\<close> and \<^verbatim>\<open>nan\<close>, which Python accepts as well,
  denote no real number and are not covered.
\<close>

definition py_float :: "string \<Rightarrow> pyfloat option" where
  "py_float s =
     (case sign_split (strip s) of (neg, u) \<Rightarrow>
        (case digitpart u of (ip, r1) \<Rightarrow>
           (case (case r1 of [] \<Rightarrow> ([], [])
                  | c # cs \<Rightarrow> if c = CHR ''.'' then digitpart cs else ([], r1)) of (fp, r2) \<Rightarrow>
              if ip = [] \<and> fp = [] then None
              else (case exponent r2 of None \<Rightarrow> None
                    | Some e \<Rightarrow>
                        let m = real (nat_of_digits ip) + real (nat_of_digits fp) / 10 ^ length fp
                        in Some (scale10 (if neg then - m else m) e)))))"

subsection \<open>Printing numbers\<close>

definition digit_char :: "nat \<Rightarrow> char" where
  "digit_char n = ''0123456789'' ! (n mod 10)"

function show_nat :: "nat \<Rightarrow> string" where
  "show_nat n = (if n < 10 then [digit_char n] else show_nat (n div 10) @ [digit_char (n mod 10)])"
  by pat_completeness auto
termination
  by (relation "measure id") auto

fun frac_digits :: "nat \<Rightarrow> real \<Rightarrow> string" where
  "frac_digits 0 f = []"
| "frac_digits (Suc k) f =
     (if f = 0 then []
      else digit_char (nat \<lfloor>f * 10\<rfloor>) # frac_digits k (f * 10 - of_int \<lfloor>f * 10\<rfloor>))"

text \<open>
  \<^verbatim>\<open>str(x)\<close> of a float, as the f-string \<^verbatim>\<open>f"SP:{setpoint}\n"\<close> applies it, in
  positional notation: the integer part, a point and the decimal digits of the fraction
  (\<^verbatim>\<open>0\<close> when there is none), so \<^verbatim>\<open>90.0\<close>, \<^verbatim>\<open>85.0\<close>, \<^verbatim>\<open>72.5\<close>. Python prints
  the shortest digits that read back as the same double and switches to exponent notation
  below \<^verbatim>\<open>1e-4\<close> and from \<^verbatim>\<open>1e16\<close> on; here a fraction with no finite expansion is
  cut after 17 digits and the exponent notation is not modelled.
\<close>

definition float_str :: "pyfloat \<Rightarrow> string" where
  "float_str x =
     (if x < 0 then ''-'' else '''') @ show_nat (nat \<lfloor>\<bar>x\<bar>\<rfloor>) @ ''.'' @
     (if frac \<bar>x\<bar> = 0 then ''0'' else frac_digits 17 (frac \<bar>x\<bar>))"

definition round_half_even :: "real \<Rightarrow> int" where
  "round_half_even y =
     (if y - of_int \<lfloor>y\<rfloor> < 1 / 2 then \<lfloor>y\<rfloor>
      else if 1 / 2 < y - of_int \<lfloor>y\<rfloor> then \<lfloor>y\<rfloor> + 1
      else if even \<lfloor>y\<rfloor> then \<lfloor>y\<rfloor> else \<lfloor>y\<rfloor> + 1)"

text \<open>The format \<^verbatim>\<open>f"{x:.1f}"\<close>: one decimal, ties to even.\<close>

definition fmt1 :: "pyfloat \<Rightarrow> string" where
  "fmt1 x =
     (if x < 0 then ''-'' else '''') @ show_nat (nat (round_half_even (\<bar>x\<bar> * 10)) div 10) @ ''.'' @
     [digit_char (nat (round_half_even (\<bar>x\<bar> * 10)) mod 10)]"

section \<open>Configuration\<close>

definition TANK_HEIGHT :: pyfloat where "TANK_HEIGHT = 15.0"
definition SENSOR_OFFSET :: pyfloat where "SENSOR_OFFSET = 1.3"
definition MIN_WATER_HEIGHT :: pyfloat where "MIN_WATER_HEIGHT = 2.5"
definition MAX_WATER_HEIGHT :: pyfloat where "MAX_WATER_HEIGHT = 10.0"
definition SENSOR_TO_BOTTOM :: pyfloat where "SENSOR_TO_BOTTOM = TANK_HEIGHT - SENSOR_OFFSET"
definition SENSOR_TO_EMPTY :: pyfloat where "SENSOR_TO_EMPTY = SENSOR_TO_BOTTOM - MIN_WATER_HEIGHT"
definition SENSOR_TO_FULL :: pyfloat where "SENSOR_TO_FULL = SENSOR_TO_BOTTOM - MAX_WATER_HEIGHT"

definition RETRY_DELAY :: pyfloat where "RETRY_DELAY = 5"
definition POST_INTERVAL :: pyfloat where "POST_INTERVAL = 1.0"
definition GET_INTERVAL :: pyfloat where "GET_INTERVAL = 1.0"
definition SERIAL_READ_INTERVAL :: pyfloat where "SERIAL_READ_INTERVAL = 0.1"

section \<open>Unit conversion\<close>

definition sensor_to_percent :: "pyfloat \<Rightarrow> pyfloat" where
  "sensor_to_percent sensor_reading =
     (let reading = max (min sensor_reading SENSOR_TO_EMPTY) SENSOR_TO_FULL
      in ((SENSOR_TO_EMPTY - reading) / (SENSOR_TO_EMPTY - SENSOR_TO_FULL)) * 100.0)"

text \<open>
  The pump percentage is the conditional expression of the push step:
  \<^verbatim>\<open>((last_pump - 16.0) / (50.0 - 16.0)) * 100.0 if last_pump > 0 else 0\<close>.
\<close>

definition pump_to_percent :: "int \<Rightarrow> pyfloat" where
  "pump_to_percent last_pump =
     (if last_pump > 0 then ((of_int last_pump - 16.0) / (50.0 - 16.0)) * 100.0 else 0)"

section \<open>The world around the program\<close>

text \<open>
  The program talks to a serial device, an HTTP server, a clock and a file. What they
  answer is not decided by the program, so it is an input of the model. Every call on
  the serial port (\<^verbatim>\<open>serial.Serial(...)\<close>, \<^verbatim>\<open>flushInput\<close>, \<^verbatim>\<open>flushOutput\<close>,
  \<^verbatim>\<open>write\<close>, \<^verbatim>\<open>in_waiting\<close>, \<^verbatim>\<open>readline\<close>) takes the next answer of a script,
  in program order. A run that needs an answer the script does not hold (it is used up, or
  its next answer is of the wrong kind) has no result: \<open>None\<close>. So \<open>None\<close> stands
  for "has not returned", which is how the retry loop of the connection behaves while
  the device stays away.
\<close>

datatype serial = Serial (is_open: bool)

datatype serial_answer = Done | Pending nat | Line string | Fail exn

text \<open>
  What the program does to the world, in order (console output is left out): a call of
  \<^verbatim>\<open>serial.Serial(...)\<close>, a frame that \<^verbatim>\<open>ser.write\<close> has written (recorded when
  the call returns), a \<^verbatim>\<open>sleep\<close>, \<^verbatim>\<open>ser.close()\<close>, and a request sent by
  \<^verbatim>\<open>requests.post\<close> with its three values.
\<close>

datatype event =
    Connect_attempt
  | Wrote string
  | Slept pyfloat
  | Closed
  | Post_request pyfloat pyfloat pyfloat

datatype csv_line = Header "string list" | Row "string list"

datatype json =
    JNull | JBool bool | JNum pyfloat | JStr string | JArr "json list" | JObj "(string \<times> json) list"

text \<open>
  An HTTP response: the status code and what \<^verbatim>\<open>res.json()\<close> gives or raises. A
  JSON object is the list of its entries, with distinct keys, as the dictionary that
  \<^verbatim>\<open>res.json()\<close> builds has them; a JSON number is a real, whether written as an
  integer or not.
\<close>

datatype response = Response (status_code: int) (json_body: "exn + json")

text \<open>
  The module's global variables, the local variables of the main block that live across
  iterations, and the state of the world.
\<close>

record state =
  ser :: "serial option"
  current_setpoint :: pyfloat
  last_upper :: pyfloat
  last_lower :: pyfloat
  last_pump :: int
  last_post_time :: pyfloat
  last_get_time :: pyfloat
  last_serial_time :: pyfloat
  script :: "serial_answer list"
  trace :: "event list"
  csv_file :: "csv_line list option"
  open_files :: nat

text \<open>
  A call returns a value (\<open>Inr\<close>) or raises (\<open>Inl\<close>), in both cases with the state it
  leaves behind: an exception does not undo the assignments made before it.
\<close>

type_synonym 'a result = "((exn + 'a) \<times> state) option"

definition then_do :: "'a result \<Rightarrow> ('a \<Rightarrow> state \<Rightarrow> 'b result) \<Rightarrow> 'b result" where
  "then_do r f =
     (case r of None \<Rightarrow> None
      | Some (Inl e, s) \<Rightarrow> Some (Inl e, s)
      | Some (Inr v, s) \<Rightarrow> f v s)"

definition sleep :: "pyfloat \<Rightarrow> state \<Rightarrow> state" where
  "sleep d s = s\<lparr>trace := trace s @ [Slept d]\<rparr>"

subsection \<open>The serial port\<close>

definition serial_call :: "(serial_answer \<Rightarrow> 'a option) \<Rightarrow> state \<Rightarrow> 'a result" where
  "serial_call reads s =
     (case script s of [] \<Rightarrow> None
      | a # as \<Rightarrow>
          (case a of Fail e \<Rightarrow> Some (Inl e, s\<lparr>script := as\<rparr>)
           | _ \<Rightarrow> (case reads a of None \<Rightarrow> None | Some v \<Rightarrow> Some (Inr v, s\<lparr>script := as\<rparr>))))"

definition completed :: "serial_answer \<Rightarrow> unit option" where
  "completed a = (case a of Done \<Rightarrow> Some () | _ \<Rightarrow> None)"

definition serial_Serial :: "state \<Rightarrow> serial result" where
  "serial_Serial s =
     serial_call (\<lambda>a. case a of Done \<Rightarrow> Some (Serial True) | _ \<Rightarrow> None)
       (s\<lparr>trace := trace s @ [Connect_attempt]\<rparr>)"

definition flushInput :: "serial \<Rightarrow> state \<Rightarrow> unit result" where
  "flushInput h s = serial_call completed s"

definition flushOutput :: "serial \<Rightarrow> state \<Rightarrow> unit result" where
  "flushOutput h s = serial_call completed s"

definition ser_write :: "serial \<Rightarrow> string \<Rightarrow> state \<Rightarrow> unit result" where
  "ser_write h frame s =
     then_do (serial_call completed s) (\<lambda>_ s1. Some (Inr (), s1\<lparr>trace := trace s1 @ [Wrote frame]\<rparr>))"

definition in_waiting :: "serial \<Rightarrow> state \<Rightarrow> nat result" where
  "in_waiting h s = serial_call (\<lambda>a. case a of Pending n \<Rightarrow> Some n | _ \<Rightarrow> None) s"

definition readline :: "serial \<Rightarrow> state \<Rightarrow> string result" where
  "readline h s = serial_call (\<lambda>a. case a of Line l \<Rightarrow> Some l | _ \<Rightarrow> None) s"

definition ser_close :: "serial \<Rightarrow> state \<Rightarrow> state" where
  "ser_close h s = s\<lparr>trace := trace s @ [Closed]\<rparr>"

section \<open>The program\<close>

subsection \<open>\<^verbatim>\<open>post\<close> and \<^verbatim>\<open>get\<close>\<close>

text \<open>
  \<^verbatim>\<open>post\<close> gets the server's status code or the exception \<^verbatim>\<open>requests.post\<close> raises;
  only \<^verbatim>\<open>requests.RequestException\<close> is caught.
\<close>

definition post :: "exn + int \<Rightarrow> pyfloat \<Rightarrow> pyfloat \<Rightarrow> pyfloat \<Rightarrow> state \<Rightarrow> unit result" where
  "post reply upper_percent lower_percent pump_percent s =
     (let s1 = s\<lparr>trace := trace s @ [Post_request upper_percent lower_percent pump_percent]\<rparr>
      in case reply of
           Inr status \<Rightarrow> Some (Inr (), s1)
         | Inl e \<Rightarrow> if e = RequestException then Some (Inr (), s1) else Some (Inl e, s1))"

text \<open>\<^verbatim>\<open>key in data\<close>, \<^verbatim>\<open>data[key]\<close> and \<^verbatim>\<open>float(v)\<close> on what \<^verbatim>\<open>res.json()\<close> returned.\<close>

definition py_in :: "string \<Rightarrow> json \<Rightarrow> exn + bool" where
  "py_in key data =
     (case data of
        JObj kvs \<Rightarrow> Inr (map_of kvs key \<noteq> None)
      | JArr xs \<Rightarrow> Inr (List.member xs (JStr key))
      | JStr t \<Rightarrow> Inr (str_contains key t)
      | _ \<Rightarrow> Inl TypeError)"

definition py_index :: "json \<Rightarrow> string \<Rightarrow> exn + json" where
  "py_index data key =
     (case data of
        JObj kvs \<Rightarrow> (case map_of kvs key of None \<Rightarrow> Inl KeyError | Some v \<Rightarrow> Inr v)
      | _ \<Rightarrow> Inl TypeError)"

definition float_of :: "json \<Rightarrow> exn + pyfloat" where
  "float_of v =
     (case v of
        JNum x \<Rightarrow> Inr x
      | JBool b \<Rightarrow> Inr (if b then 1 else 0)
      | JStr t \<Rightarrow> (case py_float t of None \<Rightarrow> Inl ValueError | Some x \<Rightarrow> Inr x)
      | _ \<Rightarrow> Inl TypeError)"

text \<open>
  The \<^verbatim>\<open>try\<close> block of \<^verbatim>\<open>get\<close>: it raises, or returns \<^verbatim>\<open>True\<close> with the new
  setpoint stored (\<open>Some\<close>), or falls through to the final \<^verbatim>\<open>return False\<close>
  (\<open>None\<close>).
\<close>

definition get_try :: "exn + response \<Rightarrow> state \<Rightarrow> exn + state option" where
  "get_try reply s =
     (case reply of Inl e \<Rightarrow> Inl e
      | Inr res \<Rightarrow>
          if status_code res = 200 then
            (case json_body res of Inl e \<Rightarrow> Inl e
             | Inr data \<Rightarrow>
                 (case py_in ''setpoint'' data of Inl e \<Rightarrow> Inl e
                  | Inr present \<Rightarrow>
                      if present then
                        (case py_index data ''setpoint'' of Inl e \<Rightarrow> Inl e
                         | Inr v \<Rightarrow>
                             (case float_of v of Inl e \<Rightarrow> Inl e
                              | Inr new_sp \<Rightarrow>
                                  if new_sp \<noteq> current_setpoint s
                                  then Inr (Some (s\<lparr>current_setpoint := new_sp\<rparr>))
                                  else Inr None))
                      else Inr None))
          else Inr None)"

text \<open>\<^verbatim>\<open>except Exception\<close> catches every exception of the model.\<close>

definition get :: "exn + response \<Rightarrow> state \<Rightarrow> bool \<times> state" where
  "get reply s =
     (case get_try reply s of
        Inl e \<Rightarrow> (False, s)
      | Inr None \<Rightarrow> (False, s)
      | Inr (Some s') \<Rightarrow> (True, s'))"

subsection \<open>\<^verbatim>\<open>send_setpoint_to_arduino\<close> and \<^verbatim>\<open>establish_serial_connection\<close>\<close>

definition newline :: char where
  "newline = CHR 0x0A"

text \<open>The handler of \<^verbatim>\<open>send_setpoint_to_arduino\<close> prints and raises again.\<close>

text \<open>The frame \<^verbatim>\<open>f"SP:{setpoint}\n"\<close>.\<close>

definition setpoint_frame :: "pyfloat \<Rightarrow> string" where
  "setpoint_frame setpoint = ''SP:'' @ float_str setpoint @ [newline]"

definition send_setpoint_to_arduino :: "serial \<Rightarrow> pyfloat \<Rightarrow> state \<Rightarrow> unit result" where
  "send_setpoint_to_arduino h setpoint s =
     then_do (flushInput h s) (\<lambda>_ s1.
     then_do (flushOutput h s1) (\<lambda>_ s2.
     ser_write h (setpoint_frame setpoint) s2))"

text \<open>One pass through the \<^verbatim>\<open>try\<close> block of \<^verbatim>\<open>establish_serial_connection\<close>.\<close>

definition connect_attempt :: "state \<Rightarrow> serial result" where
  "connect_attempt s =
     then_do (serial_Serial s) (\<lambda>h s1.
     then_do (flushInput h s1) (\<lambda>_ s2.
     then_do (flushOutput h s2) (\<lambda>_ s3.
     then_do (send_setpoint_to_arduino h (current_setpoint s3) (sleep 2 s3)) (\<lambda>_ s4.
     Some (Inr h, s4)))))"

lemma serial_call_script:
  "serial_call reads s = Some (r, s') \<Longrightarrow> length (script s') < length (script s)"
  by (auto simp: serial_call_def split: list.splits serial_answer.splits option.splits)

lemma then_do_Some:
  "then_do r f = Some x \<Longrightarrow>
     (\<exists>e s. r = Some (Inl e, s) \<and> x = (Inl e, s)) \<or> (\<exists>v s. r = Some (Inr v, s) \<and> f v s = Some x)"
  by (auto simp: then_do_def split: option.splits sum.splits)

lemma send_setpoint_script:
  "send_setpoint_to_arduino h sp s = Some (r, s') \<Longrightarrow> length (script s') < length (script s)"
  unfolding send_setpoint_to_arduino_def flushInput_def flushOutput_def ser_write_def
  by (fastforce dest!: then_do_Some dest: serial_call_script)

lemma connect_attempt_script:
  "connect_attempt s = Some (r, s') \<Longrightarrow> length (script s') < length (script s)"
  unfolding connect_attempt_def serial_Serial_def flushInput_def flushOutput_def sleep_def
  by (fastforce dest!: then_do_Some dest: serial_call_script send_setpoint_script)

function establish_serial_connection :: "state \<Rightarrow> serial result" where
  "establish_serial_connection s =
     (case connect_attempt s of
        None \<Rightarrow> None
      | Some (Inr h, s') \<Rightarrow> Some (Inr h, s')
      | Some (Inl e, s') \<Rightarrow>
          if is_OSError e then establish_serial_connection (sleep RETRY_DELAY s')
          else Some (Inl e, s'))"
  by pat_completeness auto
termination
  by (relation "measure (\<lambda>s. length (script s))")
     (auto simp: sleep_def dest: connect_attempt_script)

declare establish_serial_connection.simps [simp del]

subsection \<open>\<^verbatim>\<open>log_pid_data_to_csv\<close>\<close>

definition fieldnames :: "string list" where
  "fieldnames = [''timestamp'', ''PV'', ''CO'', ''setpoint'']"

text \<open>
  The file \<^verbatim>\<open>pid_data.csv\<close> is the list of the records written to it, or \<open>None\<close>
  while it does not exist. \<open>timestamp\<close> is what
  \<^verbatim>\<open>datetime.now().strftime('%Y-%m-%d %H:%M:%S')\<close> returns and \<open>open_ok\<close> tells
  whether \<^verbatim>\<open>open(filename, 'a')\<close> succeeds; when it raises, the handler prints and
  nothing is written. The \<^verbatim>\<open>with\<close> block closes the file when it is left. The third
  parameter is called \<^verbatim>\<open>current_setpoint\<close> in the source, where it hides the global
  variable of that name.
\<close>

definition write_record :: "csv_line \<Rightarrow> state \<Rightarrow> state" where
  "write_record r s =
     s\<lparr>csv_file := Some ((case csv_file s of None \<Rightarrow> [] | Some ls \<Rightarrow> ls) @ [r])\<rparr>"

definition log_pid_data_to_csv ::
  "string \<Rightarrow> bool \<Rightarrow> pyfloat \<Rightarrow> pyfloat \<Rightarrow> pyfloat \<Rightarrow> state \<Rightarrow> state" where
  "log_pid_data_to_csv timestamp open_ok upper_percent pump_percent setpoint s =
     (let file_exists = (csv_file s \<noteq> None) in
      if open_ok then
        (let s1 = s\<lparr>csv_file := Some (case csv_file s of None \<Rightarrow> [] | Some ls \<Rightarrow> ls),
                     open_files := open_files s + 1\<rparr>;
             s2 = (if file_exists then s1 else write_record (Header fieldnames) s1);
             s3 = write_record
                    (Row [timestamp, fmt1 upper_percent, fmt1 pump_percent, fmt1 setpoint]) s2
         in s3\<lparr>open_files := open_files s3 - 1\<rparr>)
      else s)"

subsection \<open>The main block\<close>

text \<open>
  The inner \<^verbatim>\<open>try\<close> of the serial processing: three assignments in a row, left at
  the first \<^verbatim>\<open>ValueError\<close>.
\<close>

definition assign_fields :: "string \<Rightarrow> string \<Rightarrow> string \<Rightarrow> state \<Rightarrow> state" where
  "assign_fields p0 p1 p2 s =
     (case py_float p0 of None \<Rightarrow> s
      | Some u \<Rightarrow>
          (case py_float p1 of None \<Rightarrow> s\<lparr>last_upper := u\<rparr>
           | Some l \<Rightarrow>
               (case py_int p2 of None \<Rightarrow> s\<lparr>last_upper := u, last_lower := l\<rparr>
                | Some p \<Rightarrow> s\<lparr>last_upper := u, last_lower := l, last_pump := p\<rparr>)))"

text \<open>The body of the draining loop for one line, after \<^verbatim>\<open>strip()\<close>.\<close>

definition process_line :: "string \<Rightarrow> state \<Rightarrow> state" where
  "process_line line s =
     (if str_contains ''INTERLOCK'' line then s
      else if line \<noteq> [] \<and> str_contains '','' line then
        (case str_split CHR '','' line of
           [p0, p1, p2] \<Rightarrow> assign_fields p0 p1 p2 s
         | _ \<Rightarrow> s)
      else s)"

lemma process_line_script [simp]: "script (process_line line s) = script s"
  by (simp add: process_line_def assign_fields_def split: list.splits option.splits)

text \<open>The loop \<^verbatim>\<open>while ser.in_waiting: ...\<close>.\<close>

function drain :: "serial \<Rightarrow> state \<Rightarrow> unit result" where
  "drain h s =
     (case in_waiting h s of
        None \<Rightarrow> None
      | Some (Inl e, s1) \<Rightarrow> Some (Inl e, s1)
      | Some (Inr n, s1) \<Rightarrow>
          if n = 0 then Some (Inr (), s1)
          else (case readline h s1 of
                  None \<Rightarrow> None
                | Some (Inl e, s2) \<Rightarrow> Some (Inl e, s2)
                | Some (Inr bytes, s2) \<Rightarrow> drain h (process_line (strip bytes) s2)))"
  by pat_completeness auto
termination
  by (relation "measure (\<lambda>(h, s). length (script s))")
     (auto simp: in_waiting_def readline_def dest!: serial_call_script)

declare drain.simps [simp del]

text \<open>
  What the environment gives to one iteration of \<^verbatim>\<open>while True\<close>: the clock, and for
  the push and the pull (when they are due) the time stamp, whether the log file opens, and
  the replies of the server.
\<close>

record tick =
  current_time :: pyfloat
  timestamp :: string
  csv_open_ok :: bool
  post_reply :: "exn + int"
  get_reply :: "exn + response"

text \<open>
  Serial processing. The condition of the \<^verbatim>\<open>if\<close> reads \<^verbatim>\<open>ser.in_waiting\<close> before
  the \<^verbatim>\<open>try\<close> is entered; the handler of the \<^verbatim>\<open>try\<close> catches
  \<^verbatim>\<open>serial.SerialException\<close>.
\<close>

definition serial_processing :: "tick \<Rightarrow> state \<Rightarrow> unit result" where
  "serial_processing inp s =
     (case ser s of
        None \<Rightarrow> Some (Inr (), s)
      | Some h \<Rightarrow>
          then_do (in_waiting h s) (\<lambda>n s1.
            if n \<noteq> 0 \<and> current_time inp - last_serial_time s1 \<ge> SERIAL_READ_INTERVAL then
              (case drain h (s1\<lparr>last_serial_time := current_time inp\<rparr>) of
                 None \<Rightarrow> None
               | Some (Inr u, s2) \<Rightarrow> Some (Inr (), s2)
               | Some (Inl e, s2) \<Rightarrow>
                   if e = SerialException then Some (Inr (), (ser_close h s2)\<lparr>ser := None\<rparr>)
                   else Some (Inl e, s2))
            else Some (Inr (), s1)))"

definition api_posting :: "tick \<Rightarrow> state \<Rightarrow> unit result" where
  "api_posting inp s =
     (if current_time inp - last_post_time s \<ge> POST_INTERVAL then
        (let upper_percent = sensor_to_percent (last_upper s);
             lower_percent = sensor_to_percent (last_lower s);
             pump_percent = pump_to_percent (last_pump s);
             s1 = log_pid_data_to_csv (timestamp inp) (csv_open_ok inp)
                    upper_percent pump_percent (current_setpoint s) s
         in then_do (post (post_reply inp) upper_percent lower_percent pump_percent s1) (\<lambda>_ s2.
              Some (Inr (), s2\<lparr>last_post_time := current_time inp\<rparr>)))
      else Some (Inr (), s))"

definition setpoint_check :: "tick \<Rightarrow> state \<Rightarrow> unit result" where
  "setpoint_check inp s =
     (if current_time inp - last_get_time s \<ge> GET_INTERVAL then
        (case get (get_reply inp) s of
           (changed, s1) \<Rightarrow>
             then_do
               (case (if changed then ser s1 else None) of
                  None \<Rightarrow> Some (Inr (), s1)
                | Some h \<Rightarrow>
                    (case send_setpoint_to_arduino h (current_setpoint s1) s1 of
                       None \<Rightarrow> None
                     | Some (Inr u, s2) \<Rightarrow> Some (Inr (), s2)
                     | Some (Inl e, s2) \<Rightarrow>
                         if e = SerialException then Some (Inr (), s2\<lparr>ser := None\<rparr>)
                         else Some (Inl e, s2)))
               (\<lambda>_ s3. Some (Inr (), s3\<lparr>last_get_time := current_time inp\<rparr>)))
      else Some (Inr (), s))"

definition reconnect_if_needed :: "state \<Rightarrow> unit result" where
  "reconnect_if_needed s =
     (if (case ser s of None \<Rightarrow> True | Some h \<Rightarrow> \<not> is_open h) then
        then_do (establish_serial_connection s) (\<lambda>h s1. Some (Inr (), s1\<lparr>ser := Some h\<rparr>))
      else Some (Inr (), s))"

text \<open>
  One iteration of \<^verbatim>\<open>while True\<close>. \<open>Inl e\<close> is the exception \<open>e\<close> leaving the loop:
  the main block has no handler for it (only for \<^verbatim>\<open>KeyboardInterrupt\<close>), so the
  \<^verbatim>\<open>finally\<close> clause runs and the process ends.
\<close>

definition loop_iteration :: "tick \<Rightarrow> state \<Rightarrow> unit result" where
  "loop_iteration inp s =
     then_do (serial_processing inp s) (\<lambda>_ s1.
     then_do (api_posting inp s1) (\<lambda>_ s2.
     then_do (setpoint_check inp s2) (\<lambda>_ s3.
     then_do (reconnect_if_needed s3) (\<lambda>_ s4.
     Some (Inr (), sleep 0.05 s4)))))"

text \<open>The loop, run for the iterations the list of ticks provides.\<close>

fun control_loop :: "tick list \<Rightarrow> state \<Rightarrow> unit result" where
  "control_loop [] s = Some (Inr (), s)"
| "control_loop (inp # inps) s = then_do (loop_iteration inp s) (\<lambda>_ s1. control_loop inps s1)"

text \<open>
  The start of the main block: the module's initial values, the first connection, and
  the three timers set from the clock.
\<close>

definition initial_state :: "serial_answer list \<Rightarrow> state" where
  "initial_state answers =
     \<lparr>ser = None, current_setpoint = 85.0, last_upper = 0.0, last_lower = 0.0, last_pump = 0,
      last_post_time = 0, last_get_time = 0, last_serial_time = 0,
      script = answers, trace = [], csv_file = None, open_files = 0\<rparr>"

definition startup :: "pyfloat \<Rightarrow> pyfloat \<Rightarrow> pyfloat \<Rightarrow> state \<Rightarrow> unit result" where
  "startup t1 t2 t3 s =
     then_do (establish_serial_connection s) (\<lambda>h s1.
       Some (Inr (), s1\<lparr>ser := Some h, last_post_time := t1, last_get_time := t2,
                          last_serial_time := t3\<rparr>))"

section \<open>The specification's reading of the clamp\<close>

text \<open>
  The specification describes \<^verbatim>\<open>sensorToPercent\<close> as clamping the distance to the closed
  interval from the distance-to-full to the distance-to-empty. \<open>spec_clamp\<close> is that
  clamp, written from the specification's words; the source computes it with
  \<^verbatim>\<open>max(min(...))\<close>.
\<close>

definition spec_clamp :: "pyfloat \<Rightarrow> pyfloat" where
  "spec_clamp d =
     (if d < SENSOR_TO_FULL then SENSOR_TO_FULL
      else if SENSOR_TO_EMPTY < d then SENSOR_TO_EMPTY
      else d)"

section \<open>The specification's reading of the pull\<close>

text \<open>
  The specification: when the response is well-formed and contains a numeric setpoint
  that differs from the held one, the pull stores it and returns true; otherwise it
  returns false. Read here: a response is well-formed when it arrived with status 200
  and a JSON object as its body, and its \<^verbatim>\<open>setpoint\<close> entry is numeric when it is a
  number, a boolean (an integer, for Python) or a string that spells a number.
\<close>

definition numeric :: "json \<Rightarrow> pyfloat option" where
  "numeric v =
     (case v of
        JNum x \<Rightarrow> Some x
      | JBool b \<Rightarrow> Some (if b then 1 else 0)
      | JStr t \<Rightarrow> py_float t
      | _ \<Rightarrow> None)"

definition reported_setpoint :: "exn + response \<Rightarrow> pyfloat option" where
  "reported_setpoint reply =
     (case reply of
        Inl e \<Rightarrow> None
      | Inr res \<Rightarrow>
          if status_code res = 200 then
            (case json_body res of
               Inl e \<Rightarrow> None
             | Inr data \<Rightarrow>
                 (case data of
                    JObj kvs \<Rightarrow>
                      (case map_of kvs ''setpoint'' of None \<Rightarrow> None | Some v \<Rightarrow> numeric v)
                  | _ \<Rightarrow> None))
          else None)"

definition spec_pull :: "exn + response \<Rightarrow> state \<Rightarrow> bool \<times> state" where
  "spec_pull reply s =
     (case reported_setpoint reply of
        None \<Rightarrow> (False, s)
      | Some x \<Rightarrow>
          if x \<noteq> current_setpoint s then (True, s\<lparr>current_setpoint := x\<rparr>) else (False, s))"

section \<open>Runs of the audit log\<close>

text \<open>
  A sequence of calls of \<^verbatim>\<open>log_pid_data_to_csv\<close> on the same file, each with its time
  stamp, whether the file opens, and the three values; \<open>row_of\<close> is the data record a
  call writes.
\<close>

type_synonym log_call = "string \<times> bool \<times> pyfloat \<times> pyfloat \<times> pyfloat"

fun log_calls :: "log_call list \<Rightarrow> state \<Rightarrow> state" where
  "log_calls [] s = s"
| "log_calls ((ts, ok, u, p, sp) # cs) s = log_calls cs (log_pid_data_to_csv ts ok u p sp s)"

fun call_ok :: "log_call \<Rightarrow> bool" where
  "call_ok (ts, ok, u, p, sp) = ok"

fun row_of :: "log_call \<Rightarrow> csv_line" where
  "row_of (ts, ok, u, p, sp) = Row [ts, fmt1 u, fmt1 p, fmt1 sp]"

fun is_header :: "csv_line \<Rightarrow> bool" where
  "is_header (Header cells) = True"
| "is_header (Row cells) = False"


text \<open>A tick at which the push is due for a program started at time 0.\<close>

definition tick0 :: tick where
  "tick0 = \<lparr>current_time = 1, timestamp = ''2024-05-01 10:00:00'', csv_open_ok = True,
            post_reply = Inr 200, get_reply = Inl RequestException\<rparr>"

section \<open>Runs of the serial connection\<close>

text \<open>
  The answers of one connection attempt that fails with an exception the retry loop
  catches: up to five calls that succeed (\<^verbatim>\<open>serial.Serial\<close>, two flushes, then the
  two flushes of \<^verbatim>\<open>send_setpoint_to_arduino\<close>) and one that raises. \<open>attempt_events\<close>
  is what such an attempt and the retry delay after it leave in the trace.
\<close>

definition failing_attempt :: "serial_answer list \<Rightarrow> bool" where
  "failing_attempt a =
     (case rev a of
        Fail e # ds \<Rightarrow> is_OSError e \<and> length ds < 6 \<and> list_all (\<lambda>x. x = Done) ds
      | _ \<Rightarrow> False)"

definition attempt_events :: "serial_answer list \<Rightarrow> event list" where
  "attempt_events a =
     Connect_attempt # (if 4 \<le> length a then [Slept 2] else []) @ [Slept RETRY_DELAY]"

definition attempt_or_delay :: "event \<Rightarrow> bool" where
  "attempt_or_delay ev = (ev = Connect_attempt \<or> ev = Slept RETRY_DELAY)"


fun last_write :: "event list \<Rightarrow> string option" where
  "last_write [] = None"
| "last_write (ev # evs) =
     (case last_write evs of
        Some f \<Rightarrow> Some f
      | None \<Rightarrow> (case ev of Wrote f \<Rightarrow> Some f | _ \<Rightarrow> None))"

definition connected :: "state \<Rightarrow> bool" where
  "connected s = (case ser s of None \<Rightarrow> False | Some h \<Rightarrow> is_open h)"

definition synced :: "state \<Rightarrow> bool" where
  "synced s = (last_write (trace s) = Some (setpoint_frame (current_setpoint s)))"

definition in_sync :: "state \<Rightarrow> bool" where
  "in_sync s = (connected s \<and> synced s)"

text \<open>
  Relations between the state before and after a step, for the proofs: the connection
  and the setpoint are the same; the setpoint and the last frame written are the same
  while the connection is the same or gone; an open connection implies a device in step.
\<close>

definition same_vars :: "state \<Rightarrow> state \<Rightarrow> bool" where
  "same_vars s s' = (ser s' = ser s \<and> current_setpoint s' = current_setpoint s)"

definition quiet :: "state \<Rightarrow> state \<Rightarrow> bool" where
  "quiet s s' = (current_setpoint s' = current_setpoint s
     \<and> last_write (trace s') = last_write (trace s)
     \<and> (ser s' = ser s \<or> ser s' = None))"

definition sync_kept :: "state \<Rightarrow> bool" where
  "sync_kept s = (\<not> connected s \<or> synced s)"



definition tick_reporting :: "pyfloat \<Rightarrow> tick" where
  "tick_reporting v = tick0\<lparr>get_reply := Inr (Response 200 (Inr (JObj [(''setpoint'', JNum v)])))\<rparr>"

definition demo_script :: "serial_answer list" where
  "demo_script = [Done, Done, Done, Done, Done, Done,
     Pending 0, Done, Done, Fail SerialException,
     Fail OSError,
     Done, Done, Done, Done, Done, Done]"

section \<open>Unit conversion: properties\<close>

lemma SENSOR_TO_EMPTY_val: "SENSOR_TO_EMPTY = 11.2"
  by (simp add: SENSOR_TO_EMPTY_def SENSOR_TO_BOTTOM_def TANK_HEIGHT_def SENSOR_OFFSET_def
      MIN_WATER_HEIGHT_def)

lemma SENSOR_TO_FULL_val: "SENSOR_TO_FULL = 3.7"
  by (simp add: SENSOR_TO_FULL_def SENSOR_TO_BOTTOM_def TANK_HEIGHT_def SENSOR_OFFSET_def
      MAX_WATER_HEIGHT_def)

lemma sensor_to_percent_spec_clamp:
  "sensor_to_percent d =
     (SENSOR_TO_EMPTY - spec_clamp d) / (SENSOR_TO_EMPTY - SENSOR_TO_FULL) * 100"
  by (simp add: sensor_to_percent_def spec_clamp_def SENSOR_TO_EMPTY_val SENSOR_TO_FULL_val
      max_def min_def)

lemma sensor_to_percent_antimono:
  "d \<le> d' \<Longrightarrow> sensor_to_percent d' \<le> sensor_to_percent d"
  by (simp add: sensor_to_percent_def SENSOR_TO_EMPTY_val SENSOR_TO_FULL_val max_def min_def
      divide_right_mono)

text \<open>
  Claim C4. \<^verbatim>\<open>sensor_to_percent\<close> clamps its argument to the closed interval
  [\<open>SENSOR_TO_FULL\<close>, \<open>SENSOR_TO_EMPTY\<close>] and maps the clamped value linearly by
  (\<open>SENSOR_TO_EMPTY\<close> - clamped) / (\<open>SENSOR_TO_EMPTY\<close> - \<open>SENSOR_TO_FULL\<close>) * 100.
  So it does not increase as the distance grows within the interval, it is 0 at
  \<open>SENSOR_TO_EMPTY\<close> and 100 at \<open>SENSOR_TO_FULL\<close>, and a distance beyond a bound gives
  what that bound gives.
\<close>

theorem sensor_to_percent_clamps_then_maps:
  "SENSOR_TO_FULL \<le> spec_clamp d \<and> spec_clamp d \<le> SENSOR_TO_EMPTY
   \<and> sensor_to_percent d =
       (SENSOR_TO_EMPTY - spec_clamp d) / (SENSOR_TO_EMPTY - SENSOR_TO_FULL) * 100
   \<and> (SENSOR_TO_FULL \<le> d \<and> d \<le> d' \<and> d' \<le> SENSOR_TO_EMPTY
        \<longrightarrow> sensor_to_percent d' \<le> sensor_to_percent d)
   \<and> sensor_to_percent SENSOR_TO_EMPTY = 0
   \<and> sensor_to_percent SENSOR_TO_FULL = 100
   \<and> (SENSOR_TO_EMPTY \<le> d \<longrightarrow> sensor_to_percent d = sensor_to_percent SENSOR_TO_EMPTY)
   \<and> (d \<le> SENSOR_TO_FULL \<longrightarrow> sensor_to_percent d = sensor_to_percent SENSOR_TO_FULL)"
proof -
  have range: "SENSOR_TO_FULL \<le> spec_clamp d \<and> spec_clamp d \<le> SENSOR_TO_EMPTY"
    by (simp add: spec_clamp_def SENSOR_TO_EMPTY_val SENSOR_TO_FULL_val)
  have ends: "sensor_to_percent SENSOR_TO_EMPTY = 0" "sensor_to_percent SENSOR_TO_FULL = 100"
    by (simp_all add: sensor_to_percent_def SENSOR_TO_EMPTY_val SENSOR_TO_FULL_val)
  have above: "SENSOR_TO_EMPTY \<le> d \<longrightarrow> sensor_to_percent d = sensor_to_percent SENSOR_TO_EMPTY"
    by (simp add: sensor_to_percent_def SENSOR_TO_EMPTY_val SENSOR_TO_FULL_val)
  have below: "d \<le> SENSOR_TO_FULL \<longrightarrow> sensor_to_percent d = sensor_to_percent SENSOR_TO_FULL"
    by (simp add: sensor_to_percent_def SENSOR_TO_EMPTY_val SENSOR_TO_FULL_val max_def min_def)
  show ?thesis
    using range ends above below sensor_to_percent_spec_clamp sensor_to_percent_antimono
    by blast
qed

theorem sensor_to_percent_clamps_then_maps_witness:
  "sensor_to_percent 6 \<le> sensor_to_percent 5
   \<and> sensor_to_percent 20 = 0
   \<and> sensor_to_percent 1 = 100
   \<and> sensor_to_percent 6 = (SENSOR_TO_EMPTY - 6) / (SENSOR_TO_EMPTY - SENSOR_TO_FULL) * 100"
  using sensor_to_percent_clamps_then_maps [of 5 6]
    sensor_to_percent_clamps_then_maps [of 6 6]
    sensor_to_percent_clamps_then_maps [of 20 20]
    sensor_to_percent_clamps_then_maps [of 1 1]
  by (simp add: SENSOR_TO_EMPTY_val SENSOR_TO_FULL_val spec_clamp_def)



section \<open>Decoding a telemetry line\<close>

text \<open>
  Claim C1. A line on which a field fails to parse is to leave the retained telemetry as
  it was. The source assigns the three globals one after the other inside the
  \<^verbatim>\<open>try\<close>, so on the line \<^verbatim>\<open>5.2,abc,20\<close> the first assignment has been made
  when \<^verbatim>\<open>float('abc')\<close> raises: \<open>last_upper\<close> goes from 0 to 5.2 while
  \<open>last_lower\<close> and \<open>last_pump\<close> keep their values.
\<close>

theorem process_line_bad_second_field_updates_upper:
  "process_line ''5.2,abc,20'' (initial_state []) = (initial_state [])\<lparr>last_upper := 5.2\<rparr>
   \<and> last_upper (initial_state []) = 0"
  by code_simp

section \<open>Errors of the serial port in the control loop\<close>

text \<open>
  Claim C2. A serial failure while the loop checks for pending input is to disconnect,
  not to leave the loop. With a connection open, when \<^verbatim>\<open>ser.in_waiting\<close> raises
  \<^verbatim>\<open>SerialException\<close> in the condition of the serial processing, the exception leaves
  the iteration and the loop: the remaining iterations do not run.
\<close>

theorem in_waiting_failure_leaves_the_loop:
  "control_loop (inp # inps)
     ((initial_state (Fail SerialException # rest))\<lparr>ser := Some (Serial True)\<rparr>)
   = Some (Inl SerialException, (initial_state rest)\<lparr>ser := Some (Serial True)\<rparr>)"
  by (simp add: loop_iteration_def serial_processing_def in_waiting_def serial_call_def
      then_do_def initial_state_def)

section \<open>The audit log\<close>

lemma log_existing:
  "csv_file s = Some ls \<Longrightarrow>
   csv_file (log_pid_data_to_csv ts ok u p sp s) =
     Some (ls @ (if ok then [row_of (ts, ok, u, p, sp)] else []))"
  by (simp add: log_pid_data_to_csv_def write_record_def Let_def)

lemma log_new:
  "csv_file s = None \<Longrightarrow>
   csv_file (log_pid_data_to_csv ts ok u p sp s) =
     (if ok then Some [Header fieldnames, row_of (ts, ok, u, p, sp)] else None)"
  by (simp add: log_pid_data_to_csv_def write_record_def Let_def)

lemma log_calls_existing:
  "csv_file s = Some ls \<Longrightarrow>
   csv_file (log_calls cs s) = Some (ls @ map row_of (filter call_ok cs))"
proof (induction cs arbitrary: s ls)
  case Nil
  then show ?case by simp
next
  case (Cons c cs)
  obtain ts ok u p sp where c: "c = (ts, ok, u, p, sp)"
    by (cases c) auto
  show ?case
    using Cons.prems by (simp add: c Cons.IH [OF log_existing [OF Cons.prems]])
qed

lemma log_calls_new:
  "csv_file s = None \<Longrightarrow>
   csv_file (log_calls cs s) =
     (if filter call_ok cs = [] then None
      else Some (Header fieldnames # map row_of (filter call_ok cs)))"
proof (induction cs arbitrary: s)
  case Nil
  then show ?case by simp
next
  case (Cons c cs)
  obtain ts ok u p sp where c: "c = (ts, ok, u, p, sp)"
    by (cases c) auto
  show ?case
  proof (cases ok)
    case True
    have "csv_file (log_pid_data_to_csv ts ok u p sp s) = Some [Header fieldnames, row_of c]"
      using log_new [OF Cons.prems, of ts ok u p sp] True c by simp
    from log_calls_existing [OF this, of cs] show ?thesis
      using True c by simp
  next
    case False
    have "csv_file (log_pid_data_to_csv ts ok u p sp s) = None"
      using log_new [OF Cons.prems, of ts ok u p sp] False by simp
    from Cons.IH [OF this] show ?thesis
      using False c by simp
  qed
qed

lemma no_header_among_rows: "filter is_header (map row_of cs) = []"
  by (induction cs) auto

lemma fmt1_values:
  "fmt1 (75 / 2) = ''37.5''" "fmt1 (206 / 5) = ''41.2''" "fmt1 85 = ''85.0''"
  "fmt1 40 = ''40.0''" "fmt1 50 = ''50.0''" "fmt1 90 = ''90.0''" "fmt1 80 = ''80.0''"
  by code_simp+


text \<open>
  Claim C8. On a log file that does not exist, the first call that opens it writes the
  header and one data row; over any sequence of calls the file, once it exists, is the
  header followed by one data row for each call that opened it, so it holds exactly
  one header. (A call whose \<^verbatim>\<open>open\<close> fails writes nothing and leaves the file as
  it was.)
\<close>

theorem header_written_once:
  assumes "csv_file s = None"
  shows "csv_file (log_pid_data_to_csv ts True u p sp s) =
           Some [Header fieldnames, Row [ts, fmt1 u, fmt1 p, fmt1 sp]]
    \<and> csv_file (log_calls cs s) =
        (if filter call_ok cs = [] then None
         else Some (Header fieldnames # map row_of (filter call_ok cs)))
    \<and> (case csv_file (log_calls cs s) of
          None \<Rightarrow> filter call_ok cs = []
        | Some ls \<Rightarrow> length (filter is_header ls) = 1)"
  using log_new [OF assms, of ts True u p sp] log_calls_new [OF assms, of cs]
  by (simp add: no_header_among_rows)

theorem header_written_once_witness:
  "csv_file (log_calls [(''2024-05-01 10:00:00'', True, 37.5, 41.2, 85),
                        (''2024-05-01 10:00:01'', False, 37.5, 41.2, 85),
                        (''2024-05-01 10:00:02'', True, 40, 50, 90)] (initial_state []))
   = Some [Header [''timestamp'', ''PV'', ''CO'', ''setpoint''],
           Row [''2024-05-01 10:00:00'', ''37.5'', ''41.2'', ''85.0''],
           Row [''2024-05-01 10:00:02'', ''40.0'', ''50.0'', ''90.0'']]"
proof -
  have new: "csv_file (initial_state []) = None"
    by (simp add: initial_state_def)
  show ?thesis
    using header_written_once [OF new, of "''2024-05-01 10:00:00''" 0 0 0
        "[(''2024-05-01 10:00:00'', True, 37.5, 41.2, 85),
          (''2024-05-01 10:00:01'', False, 37.5, 41.2, 85),
          (''2024-05-01 10:00:02'', True, 40, 50, 90)]"]
    by (simp add: fieldnames_def fmt1_values)
qed




section \<open>Pulling the setpoint\<close>

lemma float_of_numeric:
  "float_of v =
     (case numeric v of
        None \<Rightarrow> Inl (case v of JStr t \<Rightarrow> ValueError | _ \<Rightarrow> TypeError)
      | Some x \<Rightarrow> Inr x)"
  by (cases v) (auto simp: float_of_def numeric_def split: option.splits)

lemma get_try_object:
  "get_try (Inr (Response 200 (Inr (JObj kvs)))) s =
     (case map_of kvs ''setpoint'' of
        None \<Rightarrow> Inr None
      | Some v \<Rightarrow>
          (case float_of v of
             Inl e \<Rightarrow> Inl e
           | Inr x \<Rightarrow>
               if x \<noteq> current_setpoint s then Inr (Some (s\<lparr>current_setpoint := x\<rparr>))
               else Inr None))"
  by (simp add: get_try_def py_in_def py_index_def split: option.splits)

lemma get_try_no_object:
  "(\<forall>kvs. data \<noteq> JObj kvs) \<Longrightarrow>
   get_try (Inr (Response 200 (Inr data))) s = Inr None
   \<or> (\<exists>e. get_try (Inr (Response 200 (Inr data))) s = Inl e)"
  by (cases data) (auto simp: get_try_def py_in_def py_index_def)

lemma get_refines_spec_pull: "get reply s = spec_pull reply s"
proof (cases reply)
  case (Inl e)
  then show ?thesis
    by (simp add: get_def get_try_def spec_pull_def reported_setpoint_def)
next
  case (Inr res)
  obtain st b where res: "res = Response st b"
    by (cases res)
  show ?thesis
  proof (cases "st = 200")
    case False
    then show ?thesis
      using Inr res by (simp add: get_def get_try_def spec_pull_def reported_setpoint_def)
  next
    case True
    show ?thesis
    proof (cases b)
      case (Inl e)
      then show ?thesis
        using Inr res True by (simp add: get_def get_try_def spec_pull_def reported_setpoint_def)
    next
      case data: (Inr data)
      show ?thesis
      proof (cases "\<exists>kvs. data = JObj kvs")
        case True
        then obtain kvs where "data = JObj kvs"
          by blast
        then show ?thesis
          using Inr res \<open>st = 200\<close> data
          by (auto simp: get_def get_try_object spec_pull_def reported_setpoint_def
              float_of_numeric split: option.splits)
      next
        case False
        then have no_object: "\<forall>kvs. data \<noteq> JObj kvs"
          by blast
        have "reported_setpoint reply = None"
          using Inr res \<open>st = 200\<close> data no_object
          by (cases data) (auto simp: reported_setpoint_def)
        then show ?thesis
          using get_try_no_object [OF no_object, of s] Inr res \<open>st = 200\<close> data
          by (auto simp: get_def spec_pull_def)
      qed
    qed
  qed
qed



section \<open>Connecting with retries\<close>

lemmas port_defs = connect_attempt_def send_setpoint_to_arduino_def serial_Serial_def
  flushInput_def flushOutput_def ser_write_def completed_def serial_call_def then_do_def sleep_def

lemma connect_attempt_succeeds:
  "script s = Done # Done # Done # Done # Done # Done # rest \<Longrightarrow>
   connect_attempt s = Some (Inr (Serial True),
     s\<lparr>script := rest,
       trace := trace s @ [Connect_attempt, Slept 2, Wrote (setpoint_frame (current_setpoint s))]\<rparr>)"
  by (simp add: port_defs)

lemma failing_attempt_shape:
  assumes "failing_attempt a"
  obtains k e where "k < 6" "is_OSError e" "a = replicate k Done @ [Fail e]"
proof -
  from assms obtain e ds where r: "rev a = Fail e # ds" and e: "is_OSError e" and l: "length ds < 6"
    and d: "list_all (\<lambda>x. x = Done) ds"
    by (auto simp: failing_attempt_def split: list.splits serial_answer.splits)
  from d have "ds = replicate (length ds) Done"
    by (induction ds) (auto)
  then have "rev ds = replicate (length ds) Done"
    by (metis rev_replicate)
  moreover from r have "a = rev ds @ [Fail e]"
    by (metis rev.simps(2) rev_rev_ident)
  ultimately show ?thesis using that [of "length ds" e] e l by simp
qed

lemma connect_attempt_fails:
  assumes "k < 6" and "script s = replicate k Done @ Fail e # rest"
  shows "connect_attempt s = Some (Inl e,
    s\<lparr>script := rest, trace := trace s @ Connect_attempt # (if 3 \<le> k then [Slept 2] else [])\<rparr>)"
proof -
  from assms(1) consider "k = 0" | "k = 1" | "k = 2" | "k = 3" | "k = 4" | "k = 5"
    by linarith
  then show ?thesis
    using assms(2) by cases (simp_all add: port_defs numeral_eq_Suc)
qed

lemma failing_attempt_step:
  assumes "failing_attempt a"
  shows "\<exists>e pre. is_OSError e
    \<and> attempt_events a = Connect_attempt # pre @ [Slept RETRY_DELAY]
    \<and> (\<forall>s more. script s = a @ more \<longrightarrow> connect_attempt s
           = Some (Inl e, s\<lparr>script := more, trace := trace s @ Connect_attempt # pre\<rparr>))"
proof -
  from assms obtain k e where k: "k < 6" and e: "is_OSError e"
    and shape: "a = replicate k Done @ [Fail e]"
    by (rule failing_attempt_shape)
  define pre where "pre = (if 3 \<le> k then [Slept 2] else [])"
  have ev: "attempt_events a = Connect_attempt # pre @ [Slept RETRY_DELAY]"
    by (simp add: attempt_events_def shape pre_def)
  have run: "connect_attempt s
      = Some (Inl e, s\<lparr>script := more, trace := trace s @ Connect_attempt # pre\<rparr>)"
    if "script s = a @ more" for s more
    using connect_attempt_fails [OF k, of s e more] that
    by (simp add: shape pre_def)
  show ?thesis
    using e ev run by blast
qed

lemma establish_after_failures:
  assumes "list_all failing_attempt fs"
    and "script s = concat fs @ Done # Done # Done # Done # Done # Done # rest"
  shows "establish_serial_connection s
     = Some (Inr (Serial True),
         s\<lparr>script := rest,
           trace := trace s @ concat (map attempt_events fs) @
             [Connect_attempt, Slept 2, Wrote (setpoint_frame (current_setpoint s))]\<rparr>)"
  using assms
proof (induction fs arbitrary: s)
  case Nil
  then show ?case
    by (subst establish_serial_connection.simps) (simp add: connect_attempt_succeeds)
next
  case (Cons a fs)
  then have a: "failing_attempt a" and fs: "list_all failing_attempt fs"
    by simp_all
  let ?more = "concat fs @ Done # Done # Done # Done # Done # Done # rest"
  obtain e pre where e: "is_OSError e"
    and ev: "attempt_events a = Connect_attempt # pre @ [Slept RETRY_DELAY]"
    and run: "connect_attempt s
           = Some (Inl e, s\<lparr>script := ?more, trace := trace s @ Connect_attempt # pre\<rparr>)"
    using failing_attempt_step [OF a] Cons.prems(2) by auto
  let ?s1 = "sleep RETRY_DELAY (s\<lparr>script := ?more, trace := trace s @ Connect_attempt # pre\<rparr>)"
  have "script ?s1 = ?more"
    by (simp add: sleep_def)
  from Cons.IH [OF fs this] show ?case
    using e by (subst establish_serial_connection.simps) (simp add: run sleep_def ev)
qed

lemma establish_all_fail:
  assumes "list_all failing_attempt fs" and "script s = concat fs"
  shows "establish_serial_connection s = None"
  using assms
proof (induction fs arbitrary: s)
  case Nil
  then show ?case
    by (subst establish_serial_connection.simps) (simp add: port_defs)
next
  case (Cons a fs)
  then have a: "failing_attempt a" and fs: "list_all failing_attempt fs"
    by simp_all
  obtain e pre where e: "is_OSError e"
    and run: "connect_attempt s
           = Some (Inl e, s\<lparr>script := concat fs, trace := trace s @ Connect_attempt # pre\<rparr>)"
    using failing_attempt_step [OF a] Cons.prems(2) by auto
  let ?s1 = "sleep RETRY_DELAY (s\<lparr>script := concat fs, trace := trace s @ Connect_attempt # pre\<rparr>)"
  have "script ?s1 = concat fs"
    by (simp add: sleep_def)
  from Cons.IH [OF fs this] show ?case
    using e by (subst establish_serial_connection.simps) (simp add: run)
qed

lemma filter_attempt_events:
  "filter attempt_or_delay (attempt_events a) = [Connect_attempt, Slept RETRY_DELAY]"
  by (simp add: attempt_events_def attempt_or_delay_def RETRY_DELAY_def)

lemma filter_attempts:
  "filter attempt_or_delay (concat (map attempt_events fs)) = concat (replicate (length fs) [Connect_attempt, Slept RETRY_DELAY])"
  by (induction fs) (simp_all add: filter_attempt_events)

lemma frame_values:
  "setpoint_frame 90 = ''SP:90.0'' @ [newline]" "setpoint_frame 85 = ''SP:85.0'' @ [newline]"
  by code_simp+

text \<open>
  Claim C9. \<^verbatim>\<open>establish_serial_connection\<close> returns only from an attempt that
  succeeds. After \<open>N\<close> attempts that fail (at \<^verbatim>\<open>serial.Serial\<close>, at a flush or at
  the first write of the setpoint, with \<^verbatim>\<open>SerialException\<close> or \<^verbatim>\<open>OSError\<close>)
  followed by one that succeeds, it has made exactly \<open>N + 1\<close> attempts, has slept
  \<open>RETRY_DELAY\<close> after each failed one, and returns the handle of the last one; while
  every attempt fails it does not return.
\<close>

theorem establish_retries_until_connected:
  assumes "list_all failing_attempt fs"
  shows "establish_serial_connection
           (s\<lparr>script := concat fs @ Done # Done # Done # Done # Done # Done # rest\<rparr>)
         = Some (Inr (Serial True),
             s\<lparr>script := rest,
               trace := trace s @ concat (map attempt_events fs) @
                 [Connect_attempt, Slept 2, Wrote (setpoint_frame (current_setpoint s))]\<rparr>)
    \<and> filter attempt_or_delay
         (concat (map attempt_events fs) @
            [Connect_attempt, Slept 2, Wrote (setpoint_frame (current_setpoint s))])
       = concat (replicate (length fs) [Connect_attempt, Slept RETRY_DELAY]) @ [Connect_attempt]
    \<and> establish_serial_connection (s\<lparr>script := concat fs\<rparr>) = None"
proof -
  have "script (s\<lparr>script := concat fs @ Done # Done # Done # Done # Done # Done # rest\<rparr>)
      = concat fs @ Done # Done # Done # Done # Done # Done # rest"
    by simp
  from establish_after_failures [OF assms this]
  have ok: "establish_serial_connection
           (s\<lparr>script := concat fs @ Done # Done # Done # Done # Done # Done # rest\<rparr>)
         = Some (Inr (Serial True),
             s\<lparr>script := rest,
               trace := trace s @ concat (map attempt_events fs) @
                 [Connect_attempt, Slept 2, Wrote (setpoint_frame (current_setpoint s))]\<rparr>)"
    by simp
  have "script (s\<lparr>script := concat fs\<rparr>) = concat fs"
    by simp
  from establish_all_fail [OF assms this]
  have never: "establish_serial_connection (s\<lparr>script := concat fs\<rparr>) = None" .
  have count: "filter attempt_or_delay
         (concat (map attempt_events fs) @
            [Connect_attempt, Slept 2, Wrote (setpoint_frame (current_setpoint s))])
       = concat (replicate (length fs) [Connect_attempt, Slept RETRY_DELAY]) @ [Connect_attempt]"
    by (simp add: filter_attempts attempt_or_delay_def RETRY_DELAY_def)
  show ?thesis
    using ok never count by blast
qed

theorem establish_retries_until_connected_witness:
  "establish_serial_connection
     (initial_state
        [Fail OSError, Done, Done, Done, Done, Fail SerialException,
         Done, Done, Done, Done, Done, Done])
   = Some (Inr (Serial True),
       (initial_state [])\<lparr>trace :=
          [Connect_attempt, Slept 5, Connect_attempt, Slept 2, Slept 5,
           Connect_attempt, Slept 2, Wrote (''SP:85.0'' @ [newline])]\<rparr>)"
proof -
  have fs: "list_all failing_attempt [[Fail OSError], [Done, Done, Done, Done, Fail SerialException]]"
    by (simp add: failing_attempt_def is_OSError_def)
  show ?thesis
    using establish_retries_until_connected [OF fs, where s = "initial_state []" and rest = "[]"]
    by (simp add: initial_state_def attempt_events_def RETRY_DELAY_def frame_values)
qed

section \<open>The connected device holds the current setpoint\<close>

lemma last_write_append:
  "last_write (xs @ ys) = (case last_write ys of Some f \<Rightarrow> Some f | None \<Rightarrow> last_write xs)"
  by (induction xs) (auto split: option.splits)

lemma serial_call_fields:
  "serial_call reads s = Some (r, s') \<Longrightarrow> same_vars s s' \<and> trace s' = trace s"
  by (auto simp: serial_call_def same_vars_def split: list.splits serial_answer.splits option.splits)

lemma serial_Serial_result:
  "serial_Serial s = Some (r, s') \<Longrightarrow>
     same_vars s s' \<and> trace s' = trace s @ [Connect_attempt]
     \<and> (r = Inr (Serial True) \<or> (\<exists>e. r = Inl e))"
  by (auto simp: serial_Serial_def serial_call_def same_vars_def
      split: list.splits serial_answer.splits)

lemma flushInput_result:
  "flushInput h s = Some (r, s') \<Longrightarrow> same_vars s s' \<and> trace s' = trace s"
  by (simp add: flushInput_def serial_call_fields)

lemma flushOutput_result:
  "flushOutput h s = Some (r, s') \<Longrightarrow> same_vars s s' \<and> trace s' = trace s"
  by (simp add: flushOutput_def serial_call_fields)

lemma ser_write_result:
  "ser_write h frame s = Some (r, s') \<Longrightarrow>
     same_vars s s'
     \<and> ((r = Inr () \<and> trace s' = trace s @ [Wrote frame]) \<or> ((\<exists>e. r = Inl e) \<and> trace s' = trace s))"
  unfolding ser_write_def
  by (auto dest!: then_do_Some serial_call_fields simp: same_vars_def)

lemma send_setpoint_result:
  "send_setpoint_to_arduino h sp s = Some (r, s') \<Longrightarrow>
     same_vars s s'
     \<and> ((r = Inr () \<and> trace s' = trace s @ [Wrote (setpoint_frame sp)])
        \<or> ((\<exists>e. r = Inl e) \<and> trace s' = trace s))"
  unfolding send_setpoint_to_arduino_def
  by (auto dest!: then_do_Some flushInput_result flushOutput_result ser_write_result
      simp: same_vars_def)

lemma connect_attempt_result:
  assumes "connect_attempt s = Some (r, s')"
  shows "same_vars s s'
    \<and> ((r = Inr (Serial True)
          \<and> trace s' = trace s @
              [Connect_attempt, Slept 2, Wrote (setpoint_frame (current_setpoint s))])
       \<or> (\<exists>e evs. r = Inl e \<and> trace s' = trace s @ evs))"
  using assms unfolding connect_attempt_def
  by (auto dest!: then_do_Some serial_Serial_result flushInput_result flushOutput_result
      send_setpoint_result simp: sleep_def same_vars_def)

lemma establish_result:
  "establish_serial_connection s = Some (Inr h, s') \<Longrightarrow>
     h = Serial True \<and> same_vars s s'
     \<and> (\<exists>evs. trace s' = trace s @ evs @
           [Connect_attempt, Slept 2, Wrote (setpoint_frame (current_setpoint s))])"
proof (induction s rule: establish_serial_connection.induct)
  case (1 s)
  have unf: "(case connect_attempt s of
        None \<Rightarrow> None
      | Some (Inr h, s') \<Rightarrow> Some (Inr h, s')
      | Some (Inl e, s') \<Rightarrow>
          if is_OSError e then establish_serial_connection (sleep RETRY_DELAY s')
          else Some (Inl e, s')) = Some (Inr h, s')"
    using "1.prems" establish_serial_connection.simps [of s] by simp
  then obtain r s1 where ca: "connect_attempt s = Some (r, s1)"
    by (cases "connect_attempt s") auto
  note res = connect_attempt_result [OF ca]
  show ?case
  proof (cases r)
    case (Inr h1)
    with unf ca have "h1 = h" "s1 = s'"
      by simp_all
    with res Inr show ?thesis
      by auto
  next
    case (Inl e)
    with unf ca have e: "is_OSError e"
      and rec: "establish_serial_connection (sleep RETRY_DELAY s1) = Some (Inr h, s')"
      by (simp_all split: if_splits)
    from "1.IH" [OF ca refl _ e rec] Inl
    have h: "h = Serial True" and v2: "same_vars (sleep RETRY_DELAY s1) s'"
      and ex: "\<exists>evs. trace s' = trace (sleep RETRY_DELAY s1) @ evs @
           [Connect_attempt, Slept 2,
            Wrote (setpoint_frame (current_setpoint (sleep RETRY_DELAY s1)))]"
      by simp_all
    from res Inl obtain evs1 where t1: "trace s1 = trace s @ evs1" and v1: "same_vars s s1"
      by auto
    from ex obtain evs2 where t2: "trace s' = trace (sleep RETRY_DELAY s1) @ evs2 @
           [Connect_attempt, Slept 2,
            Wrote (setpoint_frame (current_setpoint (sleep RETRY_DELAY s1)))]"
      by (rule exE)
    have sp: "current_setpoint (sleep RETRY_DELAY s1) = current_setpoint s"
      using v1 by (simp add: sleep_def same_vars_def)
    have tr: "trace (sleep RETRY_DELAY s1) = trace s @ evs1 @ [Slept RETRY_DELAY]"
      using t1 by (simp add: sleep_def)
    have "trace s' = trace s @ (evs1 @ Slept RETRY_DELAY # evs2) @
        [Connect_attempt, Slept 2, Wrote (setpoint_frame (current_setpoint s))]"
      unfolding t2 sp tr by simp
    then have "\<exists>evs. trace s' = trace s @ evs @
        [Connect_attempt, Slept 2, Wrote (setpoint_frame (current_setpoint s))]"
      by (rule exI)
    moreover have "same_vars s s'"
      using v1 v2 by (simp add: same_vars_def sleep_def)
    ultimately show ?thesis
      using h by simp
  qed
qed

lemma same_vars_refl [simp]: "same_vars s s"
  by (simp add: same_vars_def)

lemma same_vars_trans: "same_vars s s1 \<Longrightarrow> same_vars s1 s2 \<Longrightarrow> same_vars s s2"
  by (simp add: same_vars_def)

lemma process_line_fields:
  "same_vars s (process_line l s) \<and> trace (process_line l s) = trace s"
  by (simp add: process_line_def assign_fields_def same_vars_def split: list.splits option.splits)

lemma in_waiting_result:
  "in_waiting h s = Some (r, s') \<Longrightarrow> same_vars s s' \<and> trace s' = trace s"
  by (simp add: in_waiting_def serial_call_fields)

lemma readline_result:
  "readline h s = Some (r, s') \<Longrightarrow> same_vars s s' \<and> trace s' = trace s"
  by (simp add: readline_def serial_call_fields)

lemma drain_result:
  "drain h s = Some (r, s') \<Longrightarrow> same_vars s s' \<and> trace s' = trace s"
proof (induction h s rule: drain.induct)
  case (1 h s)
  have unf: "(case in_waiting h s of
        None \<Rightarrow> None
      | Some (Inl e, s1) \<Rightarrow> Some (Inl e, s1)
      | Some (Inr n, s1) \<Rightarrow>
          if n = 0 then Some (Inr (), s1)
          else (case readline h s1 of
                  None \<Rightarrow> None
                | Some (Inl e, s2) \<Rightarrow> Some (Inl e, s2)
                | Some (Inr bytes, s2) \<Rightarrow> drain h (process_line (strip bytes) s2))) = Some (r, s')"
    using "1.prems" drain.simps [of h s] by simp
  then obtain r1 s1 where iw: "in_waiting h s = Some (r1, s1)"
    by (cases "in_waiting h s") auto
  note f1 = in_waiting_result [OF iw]
  show ?case
  proof (cases r1)
    case (Inl e)
    with unf iw have "s' = s1" by simp
    with f1 show ?thesis by simp
  next
    case (Inr n)
    show ?thesis
    proof (cases "n = 0")
      case True
      with unf iw Inr have "s' = s1" by simp
      with f1 show ?thesis by simp
    next
      case False
      with unf iw Inr have unf2: "(case readline h s1 of
                  None \<Rightarrow> None
                | Some (Inl e, s2) \<Rightarrow> Some (Inl e, s2)
                | Some (Inr bytes, s2) \<Rightarrow> drain h (process_line (strip bytes) s2)) = Some (r, s')"
        by simp
      then obtain r2 s2 where rl: "readline h s1 = Some (r2, s2)"
        by (cases "readline h s1") auto
      note f2 = readline_result [OF rl]
      show ?thesis
      proof (cases r2)
        case (Inl e)
        with unf2 rl have "s' = s2" by simp
        with f1 f2 show ?thesis by (simp add: same_vars_def)
      next
        case bytes: (Inr bytes)
        with unf2 rl have rec: "drain h (process_line (strip bytes) s2) = Some (r, s')"
          by simp
        from "1.IH" [OF iw refl Inr False rl refl bytes rec]
        have "same_vars (process_line (strip bytes) s2) s'"
          and "trace s' = trace (process_line (strip bytes) s2)"
          by simp_all
        with f1 f2 process_line_fields [of s2 "strip bytes"] show ?thesis
          by (simp add: same_vars_def)
      qed
    qed
  qed
qed

lemma serial_processing_quiet:
  assumes "serial_processing inp s = Some (Inr u, s')"
  shows "quiet s s'"
proof (cases "ser s")
  case None
  with assms show ?thesis by (simp add: serial_processing_def quiet_def)
next
  case (Some h)
  with assms obtain n s1 where iw: "in_waiting h s = Some (Inr n, s1)"
    and rest: "(if n \<noteq> 0 \<and> current_time inp - last_serial_time s1 \<ge> SERIAL_READ_INTERVAL then
              (case drain h (s1\<lparr>last_serial_time := current_time inp\<rparr>) of
                 None \<Rightarrow> None
               | Some (Inr u, s2) \<Rightarrow> Some (Inr (), s2)
               | Some (Inl e, s2) \<Rightarrow>
                   if e = SerialException then Some (Inr (), (ser_close h s2)\<lparr>ser := None\<rparr>)
                   else Some (Inl e, s2))
            else Some (Inr (), s1)) = Some (Inr u, s')"
    by (auto simp: serial_processing_def dest!: then_do_Some)
  note f1 = in_waiting_result [OF iw]
  show ?thesis
  proof (cases "n \<noteq> 0 \<and> current_time inp - last_serial_time s1 \<ge> SERIAL_READ_INTERVAL")
    case False
    with rest have "s' = s1" by (simp split: if_splits)
    with f1 show ?thesis by (simp add: quiet_def same_vars_def)
  next
    case True
    with rest obtain r2 s2 where dr: "drain h (s1\<lparr>last_serial_time := current_time inp\<rparr>) = Some (r2, s2)"
      and fin: "(case r2 of Inr u \<Rightarrow> Some (Inr (), s2)
               | Inl e \<Rightarrow>
                   if e = SerialException then Some (Inr (), (ser_close h s2)\<lparr>ser := None\<rparr>)
                   else Some (Inl e, s2)) = Some (Inr u, s')"
      by (cases "drain h (s1\<lparr>last_serial_time := current_time inp\<rparr>)") (auto split: sum.splits)
    from drain_result [OF dr] f1 have f2: "current_setpoint s2 = current_setpoint s" "trace s2 = trace s" "ser s2 = ser s"
      by (simp_all add: same_vars_def)
    from fin have "s' = s2 \<or> s' = (ser_close h s2)\<lparr>ser := None\<rparr>"
      by (auto split: sum.splits if_splits)
    with f2 show ?thesis
      by (auto simp: quiet_def ser_close_def last_write_append)
  qed
qed

lemma api_posting_quiet:
  assumes "api_posting inp s = Some (Inr u, s')"
  shows "quiet s s'"
  using assms
  by (cases "post_reply inp")
     (auto simp: api_posting_def Let_def post_def then_do_def log_pid_data_to_csv_def write_record_def
        quiet_def last_write_append split: if_splits)

lemma quiet_sync_kept: "quiet s s' \<Longrightarrow> sync_kept s \<Longrightarrow> sync_kept s'"
  by (auto simp: quiet_def sync_kept_def connected_def synced_def split: option.splits)

lemma get_result:
  "get reply s = (changed, s1) \<Longrightarrow>
     (\<not> changed \<and> s1 = s) \<or> (changed \<and> (\<exists>x. s1 = s\<lparr>current_setpoint := x\<rparr>))"
  by (auto simp: get_refines_spec_pull spec_pull_def split: option.splits if_splits)

lemma setpoint_check_sync_kept:
  assumes "setpoint_check inp s = Some (Inr u, s')" and "sync_kept s"
  shows "sync_kept s'"
proof (cases "current_time inp - last_get_time s \<ge> GET_INTERVAL")
  case False
  with assms show ?thesis by (simp add: setpoint_check_def)
next
  case True
  obtain changed s1 where g: "get (get_reply inp) s = (changed, s1)"
    by (cases "get (get_reply inp) s")
  from get_result [OF g] consider (same) "\<not> changed" "s1 = s" | (new) x where "changed" "s1 = s\<lparr>current_setpoint := x\<rparr>"
    by blast
  then show ?thesis
  proof cases
    case same
    with assms True g have "s' = s\<lparr>last_get_time := current_time inp\<rparr>"
      by (simp add: setpoint_check_def then_do_def)
    with assms(2) show ?thesis
      by (simp add: sync_kept_def connected_def synced_def)
  next
    case new
    show ?thesis
    proof (cases "ser s")
      case None
      with assms True g new have "s' = s1\<lparr>last_get_time := current_time inp\<rparr>"
        by (simp add: setpoint_check_def then_do_def)
      with None new show ?thesis
        by (simp add: sync_kept_def connected_def)
    next
      case (Some h)
      with assms(1) True g new obtain r2 s2 where
        send: "send_setpoint_to_arduino h (current_setpoint s1) s1 = Some (r2, s2)"
        and fin: "s' = (case r2 of Inr u \<Rightarrow> s2 | Inl e \<Rightarrow> s2\<lparr>ser := None\<rparr>)\<lparr>last_get_time := current_time inp\<rparr>"
        by (cases "send_setpoint_to_arduino h (current_setpoint s1) s1")
           (auto simp: setpoint_check_def then_do_def split: sum.splits if_splits)
      from send_setpoint_result [OF send] fin show ?thesis
        by (auto simp: sync_kept_def connected_def synced_def same_vars_def last_write_append)
    qed
  qed
qed

lemma reconnect_in_sync:
  assumes "reconnect_if_needed s = Some (Inr u, s')" and "sync_kept s"
  shows "in_sync s'"
proof (cases "connected s")
  case True
  with assms have "s' = s"
    by (auto simp: reconnect_if_needed_def connected_def split: option.splits)
  with True assms(2) show ?thesis
    by (simp add: in_sync_def sync_kept_def)
next
  case False
  with assms(1) obtain h s1 where est: "establish_serial_connection s = Some (Inr h, s1)"
    and fin: "s' = s1\<lparr>ser := Some h\<rparr>"
    by (auto simp: reconnect_if_needed_def connected_def dest!: then_do_Some split: option.splits if_splits)
  from establish_result [OF est] fin show ?thesis
    by (auto simp: in_sync_def connected_def synced_def same_vars_def last_write_append)
qed

lemma loop_iteration_in_sync:
  assumes "loop_iteration inp s = Some (Inr u, s')" and "in_sync s"
  shows "in_sync s'"
proof -
  from assms(1) obtain u1 s1 u2 s2 u3 s3 u4 s4 where
    st1: "serial_processing inp s = Some (Inr u1, s1)" and
    st2: "api_posting inp s1 = Some (Inr u2, s2)" and
    st3: "setpoint_check inp s2 = Some (Inr u3, s3)" and
    st4: "reconnect_if_needed s3 = Some (Inr u4, s4)" and
    fin: "s' = sleep 0.05 s4"
    unfolding loop_iteration_def by (auto dest!: then_do_Some)
  from assms(2) have "sync_kept s"
    by (simp add: in_sync_def sync_kept_def)
  then have "sync_kept s1"
    using serial_processing_quiet [OF st1] quiet_sync_kept by blast
  then have "sync_kept s2"
    using api_posting_quiet [OF st2] quiet_sync_kept by blast
  then have "sync_kept s3"
    using setpoint_check_sync_kept [OF st3] by blast
  then have "in_sync s4"
    using reconnect_in_sync [OF st4] by blast
  then show ?thesis
    using fin by (simp add: in_sync_def connected_def synced_def sleep_def last_write_append)
qed

lemma control_loop_in_sync:
  "control_loop inps s = Some (Inr u, s') \<Longrightarrow> in_sync s \<Longrightarrow> in_sync s'"
proof (induction inps arbitrary: s)
  case Nil
  then show ?case by simp
next
  case (Cons inp inps)
  from Cons.prems(1) obtain u1 s1 where it: "loop_iteration inp s = Some (Inr u1, s1)"
    and rest: "control_loop inps s1 = Some (Inr u, s')"
    by (auto dest!: then_do_Some)
  from loop_iteration_in_sync [OF it Cons.prems(2)] Cons.IH [OF rest] show ?case
    by blast
qed

lemma startup_in_sync:
  assumes "startup t1 t2 t3 s = Some (Inr u, s')"
  shows "in_sync s'"
proof -
  from assms obtain h s1 where est: "establish_serial_connection s = Some (Inr h, s1)"
    and fin: "s' = s1\<lparr>ser := Some h, last_post_time := t1, last_get_time := t2, last_serial_time := t3\<rparr>"
    by (auto simp: startup_def dest!: then_do_Some)
  from establish_result [OF est] fin show ?thesis
    by (auto simp: in_sync_def connected_def synced_def same_vars_def last_write_append)
qed

text \<open>
  Claim C10. When \<^verbatim>\<open>establish_serial_connection\<close> returns, the attempt that
  succeeded has written one frame to the device, \<^verbatim>\<open>SP:<s>\<close> and a newline for the
  setpoint \<open>s\<close> held at that moment, and nothing after it. Hence after the start of the
  main block, and after every iteration of the loop that completes, the connection is
  open and the last frame written to the device is that of the setpoint now held:
  also when a write of the setpoint failed on the connection before, or the setpoint
  changed while there was no connection.
\<close>

theorem connected_device_holds_current_setpoint:
  "(establish_serial_connection s = Some (Inr h, s') \<longrightarrow>
      is_open h \<and> current_setpoint s' = current_setpoint s
      \<and> (\<exists>evs. trace s' = trace s @ evs @
            [Connect_attempt, Slept 2, Wrote (setpoint_frame (current_setpoint s))]))
   \<and> (startup t1 t2 t3 s = Some (Inr u, s') \<longrightarrow> in_sync s')
   \<and> (in_sync s \<and> control_loop inps s = Some (Inr u, s') \<longrightarrow> in_sync s')"
  using establish_result [of s h s'] startup_in_sync [of t1 t2 t3 s u s']
    control_loop_in_sync [of inps s u s']
  by (auto simp: same_vars_def)

theorem connected_device_holds_current_setpoint_witness:
  "then_do (startup 0 0 0 (initial_state demo_script)) (\<lambda>_. control_loop [tick_reporting 90])
     = Some (Inr (),
         \<lparr>ser = Some (Serial True), current_setpoint = 90, last_upper = 0,
          last_lower = 0, last_pump = 0, last_post_time = 1, last_get_time = 1,
          last_serial_time = 0, script = [],
          trace =
            [Connect_attempt, Slept 2, Wrote (''SP:85.0'' @ [newline]),
             Post_request 100 100 0, Connect_attempt, Slept 5, Connect_attempt,
             Slept 2, Wrote (''SP:90.0'' @ [newline]), Slept (1 / 20)],
          csv_file =
            Some
             [Header [''timestamp'', ''PV'', ''CO'', ''setpoint''],
              Row [''2024-05-01 10:00:00'', ''100.0'', ''0.0'', ''85.0'']],
          open_files = 0\<rparr>)
   \<and> in_sync
         \<lparr>ser = Some (Serial True), current_setpoint = 90, last_upper = 0,
          last_lower = 0, last_pump = 0, last_post_time = 1, last_get_time = 1,
          last_serial_time = 0, script = [],
          trace =
            [Connect_attempt, Slept 2, Wrote (''SP:85.0'' @ [newline]),
             Post_request 100 100 0, Connect_attempt, Slept 5, Connect_attempt,
             Slept 2, Wrote (''SP:90.0'' @ [newline]), Slept (1 / 20)],
          csv_file =
            Some
             [Header [''timestamp'', ''PV'', ''CO'', ''setpoint''],
              Row [''2024-05-01 10:00:00'', ''100.0'', ''0.0'', ''85.0'']],
          open_files = 0\<rparr>"
proof -
  let ?s1 = "\<lparr>ser = Some (Serial True), current_setpoint = 85, last_upper = 0,
      last_lower = 0, last_pump = 0, last_post_time = 0, last_get_time = 0,
      last_serial_time = 0,
      script =
        [Pending 0, Done, Done, Fail SerialException, Fail OSError, Done,
         Done, Done, Done, Done, Done],
      trace = [Connect_attempt, Slept 2, Wrote (''SP:85.0'' @ [newline])],
      csv_file = None, open_files = 0\<rparr>"
  let ?s2 = "\<lparr>ser = Some (Serial True), current_setpoint = 90, last_upper = 0,
          last_lower = 0, last_pump = 0, last_post_time = 1, last_get_time = 1,
          last_serial_time = 0, script = [],
          trace =
            [Connect_attempt, Slept 2, Wrote (''SP:85.0'' @ [newline]),
             Post_request 100 100 0, Connect_attempt, Slept 5, Connect_attempt,
             Slept 2, Wrote (''SP:90.0'' @ [newline]), Slept (1 / 20)],
          csv_file =
            Some
             [Header [''timestamp'', ''PV'', ''CO'', ''setpoint''],
              Row [''2024-05-01 10:00:00'', ''100.0'', ''0.0'', ''85.0'']],
          open_files = 0\<rparr>"
  have run1: "startup 0 0 0 (initial_state demo_script) = Some (Inr (), ?s1)"
    by code_simp
  have run2: "control_loop [tick_reporting 90] ?s1 = Some (Inr (), ?s2)"
    by code_simp
  have "in_sync ?s1"
    using connected_device_holds_current_setpoint [where s = "initial_state demo_script" and s' = ?s1 and u = "()"
        and ?t1.0 = 0 and ?t2.0 = 0 and ?t3.0 = 0] run1
    by blast
  then have sync: "in_sync ?s2"
    using connected_device_holds_current_setpoint [where s = ?s1 and s' = ?s2 and u = "()" and inps = "[tick_reporting 90]"] run2
    by blast
  have run: "then_do (startup 0 0 0 (initial_state demo_script))
      (\<lambda>_. control_loop [tick_reporting 90]) = Some (Inr (), ?s2)"
    by code_simp
  show ?thesis
    using run sync by (rule conjI)
qed

section \<open>Writing a pulled setpoint to the device\<close>









end
